theory Spec2Isabelle
  imports Complex_Main "HOL-Library.Multiset" "HOL-Library.AList"
    "HOL-Library.Char_ord" "HOL-Library.List_Lexorder"
begin


section \<open>Symbols, expressions and errors\<close>

text \<open>
  A sympy symbol is its name together with its assumptions; two symbols are equal when both
  agree, while \<open>str\<close> shows the name only. \<open>reorder_variables\<close> compares by \<open>str\<close>,
  every other place of \<open>ode_system.py\<close> by equality.
\<close>

datatype symbol = Symbol (sym_name: string) (sym_assumptions: "(string \<times> bool) list")

definition str :: "symbol \<Rightarrow> string" where
  "str v = sym_name v"

text \<open>
  Expressions are the trees that Python's operators build. The symbolic engine (sympy) is
  a collaborator: what it computes from a tree (\<open>cancel\<close>, \<open>as_numer_denom\<close>,
  \<open>as_coeff_add\<close>, \<open>sympify\<close> of a text) is a parameter of the functions below.
\<close>

datatype expr =
    Num rat
  | Sym symbol
  | Add expr expr
  | Mul expr expr
  | Div expr expr
  | Pow expr expr

text \<open>Every \<open>raise\<close> and every failing \<open>assert\<close> of the source is a value of this type.\<close>

datatype error =
    AssertionError
  | ValueError string
  | IndexError
  | AttributeError
  | SympifyError
  | MalformedMonomial

definition bind_err :: "error + 'a \<Rightarrow> ('a \<Rightarrow> error + 'b) \<Rightarrow> error + 'b" where
  "bind_err m f = (case m of Inl e \<Rightarrow> Inl e | Inr x \<Rightarrow> f x)"

text \<open>A list comprehension whose body may raise: the first failure ends it.\<close>

fun map_err :: "('a \<Rightarrow> error + 'b) \<Rightarrow> 'a list \<Rightarrow> error + 'b list" where
  "map_err f [] = Inr []"
| "map_err f (x # xs) =
     (case f x of
        Inl e \<Rightarrow> Inl e
      | Inr y \<Rightarrow> (case map_err f xs of Inl e \<Rightarrow> Inl e | Inr ys \<Rightarrow> Inr (y # ys)))"

section \<open>The ODE system\<close>

text \<open>
  The fields \<open>_variables\<close>, \<open>_derivatives\<close> and \<open>_indep_var\<close> of class \<open>ODESystem\<close>.
  A derivative that was not given is \<open>None\<close>.
\<close>

record ODESystem =
  priv_variables :: "symbol list"
  priv_derivatives :: "expr option list"
  priv_indep_var :: symbol

definition indep_var :: "ODESystem \<Rightarrow> symbol" where
  "indep_var sys = priv_indep_var sys"

definition variables :: "ODESystem \<Rightarrow> symbol list" where
  "variables sys = priv_variables sys"

definition derivatives :: "ODESystem \<Rightarrow> expr list" where
  "derivatives sys =
     map (\<lambda>e. case e of None \<Rightarrow> Num 0 | Some x \<Rightarrow> x) (priv_derivatives sys)"

text \<open>\<open>tuple.index\<close>: the first position of the element.\<close>

fun index :: "'a list \<Rightarrow> 'a \<Rightarrow> nat" where
  "index [] y = 0"
| "index (x # xs) y = (if x = y then 0 else Suc (index xs y))"

text \<open>
  \<open>ODESystem.__init__\<close>: the three assertions in the order of the source. The third reads
  the \<open>derivatives\<close> property, where a missing derivative is 0. When the second assertion
  has passed the index of the third is in range.
\<close>

definition t_symbol :: symbol where
  "t_symbol = Symbol ''t'' []"

definition ODESystem_init ::
  "symbol list \<Rightarrow> expr option list \<Rightarrow> symbol option \<Rightarrow> error + ODESystem" where
  "ODESystem_init vs ds iv =
     (let sys = \<lparr>priv_variables = vs, priv_derivatives = ds,
                 priv_indep_var = (case iv of None \<Rightarrow> t_symbol | Some v \<Rightarrow> v)\<rparr>
      in if indep_var sys \<notin> set (variables sys) then Inl AssertionError
         else if length (variables sys) \<noteq> length (priv_derivatives sys) then Inl AssertionError
         else if derivatives sys ! index (variables sys) (indep_var sys) \<noteq> Num 1
           then Inl AssertionError
         else Inr sys)"

text \<open>
  \<open>reorder_variables\<close> mutates the system, so the model returns the outcome together with
  the system as it is afterwards. \<open>column_shuffle\<close> collects, for every requested variable,
  every position whose name matches. The two assignments follow one another: indexing the
  derivatives fails when a position is out of their range, after the variables have been
  replaced.
\<close>

definition column_shuffle :: "symbol list \<Rightarrow> symbol list \<Rightarrow> nat list" where
  "column_shuffle new_vars vars =
     concat (map (\<lambda>new_var. filter (\<lambda>i. str (vars ! i) = str new_var) [0..<length vars])
       new_vars)"

definition reorder_variables :: "symbol list \<Rightarrow> ODESystem \<Rightarrow> (error + unit) \<times> ODESystem" where
  "reorder_variables new_vars sys =
     (if sort (map str new_vars) \<noteq> sort (map str (variables sys)) then (Inl AssertionError, sys)
      else
        let cs = column_shuffle new_vars (variables sys);
            sys1 = sys\<lparr>priv_variables := map (\<lambda>i. priv_variables sys ! i) cs\<rparr>
        in if list_all (\<lambda>i. i < length (priv_derivatives sys)) cs
           then (Inr (), sys1\<lparr>priv_derivatives := map (\<lambda>i. priv_derivatives sys ! i) cs\<rparr>)
           else (Inl IndexError, sys1))"

section \<open>What the module imports\<close>

text \<open>
  \<open>ode_system.py\<close> calls sympy, numpy and two helper modules. The numpy operations it uses
  are modelled below (\<open>ndarray\<close>). The rest is collected in one record, each field named
  after the function it stands for:
  \<^item> \<open>sympy_var\<close> and \<open>sympify\<close>: \<open>sympy.var\<close> and \<open>sympy.sympify\<close> on a text;
  \<^item> \<open>as_terms\<close>: \<open>expr.cancel()\<close>, then \<open>as_numer_denom()\<close>, then \<open>as_coeff_add()\<close> of the
    numerator and of the denominator: for each the constant and the tuple of terms, in
    sympy's order;
  \<^item> \<open>expressions_to_variables\<close> and \<open>unique_array_stable\<close> of \<open>sympy_helper\<close>;
  \<^item> \<open>hnf_row\<close> of \<open>hermite_helper\<close>;
  \<^item> \<open>dict_order\<close>: the order in which a Python 2 \<open>dict\<close> holding the given items
    iterates (\<open>keys\<close>, \<open>values\<close> and \<open>iteritems\<close> agree on it). The language fixes no such
    order; the items are given in insertion order.
\<close>

datatype ndarray = Array1 "int list" | Array2 nat nat "int list list"

record collab =
  sympy_var :: "string \<Rightarrow> error + symbol"
  sympify :: "string \<Rightarrow> error + expr"
  as_terms :: "expr \<Rightarrow> (rat \<times> expr list) \<times> (rat \<times> expr list)"
  expressions_to_variables :: "expr list \<Rightarrow> symbol list"
  unique_array_stable :: "symbol list \<Rightarrow> symbol list"
  hnf_row :: "ndarray \<Rightarrow> error + ndarray \<times> ndarray"
  dict_order :: "(symbol \<times> expr) list \<Rightarrow> (symbol \<times> expr) list"

text \<open>\<open>dict(pairs)\<close>: a later pair replaces the value of an earlier one with the same key.\<close>

definition dict :: "('k \<times> 'v) list \<Rightarrow> ('k \<times> 'v) list" where
  "dict pairs = fold (\<lambda>(k, v) d. AList.update k v d) pairs []"

section \<open>Parsing equations\<close>

definition whitespace :: "char \<Rightarrow> bool" where
  "whitespace c = (c \<in> set [CHR '' '', CHR 0x09, CHR 0x0A, CHR 0x0B, CHR 0x0C, CHR 0x0D])"

definition alnum :: "char \<Rightarrow> bool" where
  "alnum c = (let n = (of_char c :: nat) in
     (48 \<le> n \<and> n \<le> 57) \<or> (65 \<le> n \<and> n \<le> 90) \<or> (97 \<le> n \<and> n \<le> 122))"

definition strip :: "string \<Rightarrow> string" where
  "strip s = rev (dropWhile whitespace (rev (dropWhile whitespace s)))"

text \<open>
  \<open>re.match(r'd([a-zA-Z0-9]*)/d([a-zA-Z0-9]*)\s*=*\s*(.*)', s)\<close>: the three groups, or
  \<open>None\<close>. Every starred part is greedy and what follows it can match the empty text, so
  each takes the longest run; the first group must be followed by \<open>/d\<close>, and \<open>.\<close> stops
  at a newline.
\<close>

definition match_de :: "string \<Rightarrow> (string \<times> string \<times> string) option" where
  "match_de s =
     (case s of
        [] \<Rightarrow> None
      | c # r1 \<Rightarrow>
          if c \<noteq> CHR ''d'' then None
          else (case dropWhile alnum r1 of
                  c1 # c2 # r2 \<Rightarrow>
                    if c1 = CHR ''/'' \<and> c2 = CHR ''d'' then
                      Some (takeWhile alnum r1, takeWhile alnum r2,
                        takeWhile (\<lambda>c. c \<noteq> CHR 0x0A)
                          (dropWhile whitespace (dropWhile (\<lambda>c. c = CHR ''='')
                            (dropWhile whitespace (dropWhile alnum r2)))))
                    else None
                | _ \<Rightarrow> None))"

text \<open>
  \<open>parse_de\<close>: when the line does not match, \<open>match\<close> is \<open>None\<close> and \<open>match.group\<close> raises
  AttributeError. The independent variable is checked before sympy is called.
\<close>

definition parse_de :: "collab \<Rightarrow> string \<Rightarrow> string \<Rightarrow> error + symbol \<times> expr" where
  "parse_de env diff_eq indep =
     (case match_de (strip diff_eq) of
        None \<Rightarrow> Inl AttributeError
      | Some (g1, g2, g3) \<Rightarrow>
          if g2 \<noteq> indep then Inl (ValueError (''We only work in ordinary DEs in '' @ indep))
          else bind_err (sympy_var env g1) (\<lambda>v. bind_err (sympify env g3) (\<lambda>e. Inr (v, e))))"

text \<open>\<open>str.split(sep)\<close> for a separator of one character.\<close>

fun split :: "char \<Rightarrow> string \<Rightarrow> string list" where
  "split sep [] = [[]]"
| "split sep (c # cs) =
     (if c = sep then [] # split sep cs
      else (case split sep cs of [] \<Rightarrow> [[c]] | l # ls \<Rightarrow> (c # l) # ls))"

text \<open>The argument of \<open>from_equations\<close> is a text or a sequence of lines.\<close>

datatype equations = Text string | Lines "string list"

definition equation_lines :: "equations \<Rightarrow> string list" where
  "equation_lines equations =
     (case equations of Text s \<Rightarrow> split (CHR 0x0A) (strip s) | Lines ls \<Rightarrow> ls)"

text \<open>
  \<open>ODESystem.from_equations\<close>. \<open>parse_de\<close> is mapped over the lines with its own default
  \<open>indep_var = 't'\<close>, and the class is called without an independent variable, so the
  constructor takes its default too.
\<close>

definition from_equations :: "collab \<Rightarrow> equations \<Rightarrow> symbol \<Rightarrow> error + ODESystem" where
  "from_equations env equations indep =
     bind_err (map_err (\<lambda>l. parse_de env l ''t'') (equation_lines equations)) (\<lambda>pairs.
       let eqs = dict pairs;
           items = dict_order env eqs;
           vars = unique_array_stable env
             (sort_key str (map fst items) @ [indep]
               @ sort_key str (expressions_to_variables env (map snd items)))
       in if map_of eqs indep \<noteq> None then Inl AssertionError
          else let eqs1 = AList.update indep (Num 1) eqs
               in ODESystem_init vars (map (map_of eqs1) vars) None)"

section \<open>Arrays\<close>

text \<open>
  The numpy arrays of the module have one or two axes. \<open>Array1 xs\<close> has shape
  \<open>(length xs,)\<close>; \<open>Array2 r c rows\<close> has shape \<open>(r, c)\<close> and holds its \<open>r\<close> rows, each of
  length \<open>c\<close> (the shape is kept apart from the rows, since \<open>r\<close> or \<open>c\<close> may be 0). Entries
  are of the integer type \<open>INT_TYPE_DEF\<close> of \<open>hermite_helper\<close>, taken here as unbounded.
\<close>

definition shape0 :: "ndarray \<Rightarrow> nat" where
  "shape0 a = (case a of Array1 xs \<Rightarrow> length xs | Array2 r c rows \<Rightarrow> r)"

text \<open>\<open>a.shape[1]\<close>: the shape of an array of one axis has no second entry.\<close>

definition shape1 :: "ndarray \<Rightarrow> error + nat" where
  "shape1 a = (case a of Array1 xs \<Rightarrow> Inl IndexError | Array2 r c rows \<Rightarrow> Inr c)"

text \<open>
  \<open>numpy.array(powers, dtype=INT_TYPE_DEF)\<close> for a list of lists of integers: the empty
  list gives the empty array of one axis, lists of one length give an array of two axes,
  and anything else is refused.
\<close>

definition numpy_array :: "int list list \<Rightarrow> error + ndarray" where
  "numpy_array powers =
     (case powers of
        [] \<Rightarrow> Inr (Array1 [])
      | p # ps \<Rightarrow>
          if list_all (\<lambda>q. length q = length p) ps
          then Inr (Array2 (length powers) (length p) powers)
          else Inl (ValueError ''setting an array element with a sequence.''))"

text \<open>\<open>a.T\<close>: an array of one axis is its own transpose.\<close>

definition T :: "ndarray \<Rightarrow> ndarray" where
  "T a =
     (case a of
        Array1 xs \<Rightarrow> Array1 xs
      | Array2 r c rows \<Rightarrow> Array2 c r (map (\<lambda>j. map (\<lambda>row. row ! j) rows) [0..<c]))"

definition is_array1 :: "ndarray \<Rightarrow> bool" where
  "is_array1 a = (case a of Array1 xs \<Rightarrow> True | Array2 r c rows \<Rightarrow> False)"

definition entries1 :: "ndarray \<Rightarrow> int list" where
  "entries1 a = (case a of Array1 xs \<Rightarrow> xs | Array2 r c rows \<Rightarrow> concat rows)"

definition rows_of :: "ndarray \<Rightarrow> int list list" where
  "rows_of a = (case a of Array1 xs \<Rightarrow> map (\<lambda>x. [x]) xs | Array2 r c rows \<Rightarrow> rows)"

definition ncols :: "ndarray \<Rightarrow> nat" where
  "ncols a = (case a of Array1 xs \<Rightarrow> 1 | Array2 r c rows \<Rightarrow> c)"

text \<open>
  \<open>numpy.hstack\<close>: no array at all is refused; when the first array has one axis the
  arrays are joined along it, otherwise along the second axis; the arrays must have the
  same number of axes and, along the axes that are not joined, the same extent.
\<close>

definition hstack :: "ndarray list \<Rightarrow> error + ndarray" where
  "hstack arrs =
     (case arrs of
        [] \<Rightarrow> Inl (ValueError ''need at least one array to concatenate'')
      | a # rest \<Rightarrow>
          if is_array1 a then
            if list_all is_array1 arrs then Inr (Array1 (concat (map entries1 arrs)))
            else Inl (ValueError ''all the input arrays must have same number of dimensions'')
          else if list_ex is_array1 arrs
            then Inl (ValueError ''all the input arrays must have same number of dimensions'')
          else if list_all (\<lambda>b. shape0 b = shape0 a) arrs
            then Inr (Array2 (shape0 a) (sum_list (map ncols arrs))
                   (map (\<lambda>i. concat (map (\<lambda>b. rows_of b ! i) arrs)) [0..<shape0 a]))
          else Inl (ValueError
            ''all the input array dimensions except for the concatenation axis must match exactly''))"

text \<open>\<open>numpy.zeros((1, n))\<close>; its entries are the floating-point zero.\<close>

definition zeros1 :: "nat \<Rightarrow> ndarray" where
  "zeros1 n = Array2 1 n [replicate n 0]"

text \<open>\<open>[numpy.all(row == 0) for row in a]\<close>: iteration runs along the first axis.\<close>

definition row_is_zero :: "ndarray \<Rightarrow> bool list" where
  "row_is_zero a = map (list_all (\<lambda>x. x = 0)) (rows_of a)"

text \<open>\<open>a[-k:]\<close> for \<open>k > 0\<close>: the last \<open>k\<close> entries along the first axis, all of them when there are fewer.\<close>

definition last_rows :: "nat \<Rightarrow> ndarray \<Rightarrow> ndarray" where
  "last_rows k a =
     (case a of
        Array1 xs \<Rightarrow> Array1 (drop (length xs - k) xs)
      | Array2 r c rows \<Rightarrow> Array2 (min k r) c (drop (r - k) rows))"

text \<open>\<open>numpy.all(a == 0)\<close>.\<close>

definition all_zero :: "ndarray \<Rightarrow> bool" where
  "all_zero a = list_all (list_all (\<lambda>x. x = 0)) (rows_of a)"

section \<open>Power matrices\<close>

text \<open>
  Modelled from the spec: \<open>monomial_to_powers\<close> of \<open>sympy_helper\<close> is not among the
  sources. For a monomial (a product of integer powers of variables with a numeric
  coefficient) and the ordered variables it returns the vector whose entry \<open>i\<close> is the
  exponent of variable \<open>i\<close> in the monomial, 0 if absent; a bare variable has exponent 1;
  the coefficient is discarded; an exponent that is not an integer, or is symbolic, is a
  malformed monomial. The quotient \<open>mon / ref_power\<close> is passed as the tree it is written
  as: its exponents are those of \<open>mon\<close> minus those of \<open>ref_power\<close>.
\<close>

fun is_monomial :: "expr \<Rightarrow> bool" where
  "is_monomial (Num c) = True"
| "is_monomial (Sym v) = True"
| "is_monomial (Add a b) = False"
| "is_monomial (Mul a b) = (is_monomial a \<and> is_monomial b)"
| "is_monomial (Div a b) = (is_monomial a \<and> is_monomial b)"
| "is_monomial (Pow a (Num k)) = (is_monomial a \<and> k = of_int \<lfloor>k\<rfloor>)"
| "is_monomial (Pow a b) = False"

fun exponent :: "symbol \<Rightarrow> expr \<Rightarrow> int" where
  "exponent x (Num c) = 0"
| "exponent x (Sym v) = (if v = x then 1 else 0)"
| "exponent x (Add a b) = 0"
| "exponent x (Mul a b) = exponent x a + exponent x b"
| "exponent x (Div a b) = exponent x a - exponent x b"
| "exponent x (Pow a (Num k)) = \<lfloor>k\<rfloor> * exponent x a"
| "exponent x (Pow a b) = 0"

definition monomial_to_powers :: "expr \<Rightarrow> symbol list \<Rightarrow> error + int list" where
  "monomial_to_powers monomial vars =
     (if is_monomial monomial then Inr (map (\<lambda>x. exponent x monomial) vars)
      else Inl MalformedMonomial)"

text \<open>
  \<open>rational_expr_to_power_matrix\<close>. The first component chooses \<open>ref_power\<close>, \<open>num_terms\<close>
  and \<open>denom_terms\<close> as the branches of the source do (\<open>list.pop\<close> on no terms raises
  IndexError); then every term, divided by \<open>ref_power\<close>, gives one list of exponents,
  and the lists become the columns of the result.
\<close>

definition rational_expr_to_power_matrix :: "collab \<Rightarrow> expr \<Rightarrow> symbol list \<Rightarrow> error + ndarray" where
  "rational_expr_to_power_matrix env e vars =
     (case as_terms env e of ((num_const, num_terms), (denom_const, denom_terms)) \<Rightarrow>
        bind_err
          (if denom_const \<noteq> 0 then
             Inr (Num 1, if num_const \<noteq> 0 then num_terms @ [Num num_const] else num_terms,
                  denom_terms)
           else if num_const \<noteq> 0 then Inr (Num 1, num_terms, denom_terms)
           else if denom_terms = [] then Inl IndexError
           else Inr (last denom_terms, num_terms, butlast denom_terms))
          (\<lambda>(ref_power, num_terms1, denom_terms1).
             bind_err
               (map_err (\<lambda>mon. monomial_to_powers (Div mon ref_power) vars)
                  (num_terms1 @ denom_terms1))
               (\<lambda>powers. bind_err (numpy_array powers) (\<lambda>a. Inr (T a)))))"

text \<open>
  \<open>derivative_dict\<close>: the dict of the pairs (variable, derivative) whose derivative is
  not \<open>None\<close>; \<open>zip\<close> stops at the shorter sequence.
\<close>

definition derivative_dict :: "ODESystem \<Rightarrow> (symbol \<times> expr) list" where
  "derivative_dict sys =
     dict (List.map_filter (\<lambda>(v, d). map_option (\<lambda>e. (v, e)) d)
       (zip (variables sys) (priv_derivatives sys)))"

text \<open>\<open>power_matrix\<close>: one block for every item of \<open>derivative_dict\<close>, in the order the dict iterates.\<close>

definition power_matrix :: "collab \<Rightarrow> ODESystem \<Rightarrow> error + ndarray" where
  "power_matrix env sys =
     (let exprs = map (\<lambda>(var, e). Div (Mul (Sym (priv_indep_var sys)) e) (Sym var))
                    (dict_order env (derivative_dict sys))
      in bind_err (map_err (\<lambda>e. rational_expr_to_power_matrix env e (variables sys)) exprs)
           (\<lambda>matrices. bind_err (hstack matrices)
              (\<lambda>out. if shape0 out \<noteq> length (variables sys) then Inl AssertionError
                     else Inr out)))"

text \<open>\<open>maximal_scaling_matrix\<close>; \<open>num_nonzero\<close> counts the rows of the Hermite form that are zero.\<close>

definition maximal_scaling_matrix :: "collab \<Rightarrow> ODESystem \<Rightarrow> error + ndarray" where
  "maximal_scaling_matrix env sys =
     bind_err (power_matrix env sys) (\<lambda>pm.
       bind_err (hnf_row env pm) (\<lambda>(hermite_rform, multiplier_rform).
         let num_nonzero = length (filter (\<lambda>b. b) (row_is_zero hermite_rform))
         in if num_nonzero = 0 then Inr (zeros1 (length (variables sys)))
            else if \<not> all_zero (last_rows num_nonzero hermite_rform) then Inl AssertionError
            else bind_err (shape1 multiplier_rform) (\<lambda>c.
                   if c \<noteq> length (variables sys) then Inl AssertionError
                   else Inr (last_rows num_nonzero multiplier_rform))))"

text \<open>
  Modelled from the spec: \<open>hnf_row\<close> of \<open>hermite_helper\<close> is not among the sources. For an
  integer matrix \<open>A\<close> of shape \<open>(n, m)\<close> it returns \<open>(H, U)\<close> with \<open>U\<close> a square integer matrix
  of shape \<open>(n, n)\<close> and \<open>U \<cdot> A = H\<close>. \<open>vecmat u A\<close> is the product of the row \<open>u\<close> with \<open>A\<close>; the
  contract is stated for one call, and says nothing when the call fails or \<open>A\<close> has one
  axis. (That \<open>U\<close> is unimodular and \<open>H\<close> is in normal form is not used below.)
\<close>

definition vecmat :: "int list \<Rightarrow> ndarray \<Rightarrow> int list" where
  "vecmat u A =
     map (\<lambda>j. sum_list (map (\<lambda>i. u ! i * (rows_of A ! i ! j)) [0..<shape0 A])) [0..<ncols A]"

definition hnf_row_contract :: "(ndarray \<Rightarrow> error + ndarray \<times> ndarray) \<Rightarrow> ndarray \<Rightarrow> bool" where
  "hnf_row_contract f A =
     (case f A of
        Inl e \<Rightarrow> True
      | Inr (H, U) \<Rightarrow>
          (case A of
             Array1 xs \<Rightarrow> True
           | Array2 n m a \<Rightarrow>
               (case U of
                  Array1 us \<Rightarrow> False
                | Array2 un um u \<Rightarrow>
                    un = n \<and> um = n \<and> length u = n \<and> list_all (\<lambda>r. length r = n) u
                    \<and> H = Array2 n m (map (\<lambda>r. vecmat r A) u))))"


section \<open>Example systems\<close>

text \<open>
  The system of \<open>dx/dt = x\<close>, and the answers of the collaborators on it:
  \<open>t * x / x\<close> cancels to \<open>t\<close> (no constant, the one term \<open>t\<close>, over the constant 1),
  \<open>t * 1 / t\<close> to 1 and \<open>t * 0 / x\<close> to 0; \<open>t * (1 + x + t) / x\<close> has the numerator
  \<open>t + t*x + t**2\<close> and the denominator \<open>x\<close>. The dict iterates in insertion order, and
  \<open>hnf_row\<close> is given on the two power matrices the examples need.
\<close>

definition x_symbol :: symbol where
  "x_symbol = Symbol ''x'' []"

fun free_symbols :: "expr \<Rightarrow> symbol list" where
  "free_symbols (Num c) = []"
| "free_symbols (Sym v) = [v]"
| "free_symbols (Add a b) = free_symbols a @ free_symbols b"
| "free_symbols (Mul a b) = free_symbols a @ free_symbols b"
| "free_symbols (Div a b) = free_symbols a @ free_symbols b"
| "free_symbols (Pow a b) = free_symbols a @ free_symbols b"

fun first_occurrences :: "'a list \<Rightarrow> 'a list \<Rightarrow> 'a list" where
  "first_occurrences seen [] = []"
| "first_occurrences seen (x # xs) =
     (if x \<in> set seen then first_occurrences seen xs else x # first_occurrences (x # seen) xs)"

definition example_env :: collab where
  "example_env = \<lparr>
     sympy_var = (\<lambda>n. Inr (Symbol n [])),
     sympify = (\<lambda>s. if s = ''x'' then Inr (Sym x_symbol)
                     else if s = ''0'' then Inr (Num 0)
                     else if s = ''1'' then Inr (Num 1)
                     else Inl SympifyError),
     as_terms = (\<lambda>e.
       if e = Div (Mul (Sym t_symbol) (Sym x_symbol)) (Sym x_symbol)
         then ((0, [Sym t_symbol]), (1, []))
       else if e = Div (Mul (Sym t_symbol) (Num 1)) (Sym t_symbol)
         then ((1, []), (1, []))
       else if e = Div (Mul (Sym t_symbol) (Add (Add (Num 1) (Sym x_symbol)) (Sym t_symbol)))
                     (Sym x_symbol)
         then ((0, [Sym t_symbol, Mul (Sym t_symbol) (Sym x_symbol),
                    Pow (Sym t_symbol) (Num 2)]),
               (0, [Sym x_symbol]))
       else ((0, []), (1, []))),
     expressions_to_variables = (\<lambda>es. concat (map free_symbols es)),
     unique_array_stable = first_occurrences [],
     hnf_row = (\<lambda>A.
       if A = Array2 2 2 [[0, 0], [1, 0]]
         then Inr (Array2 2 2 [[1, 0], [0, 0]], Array2 2 2 [[0, 1], [1, 0]])
       else if A = Array2 2 4 [[- 1, 0, - 1, 0], [1, 1, 2, 0]]
         then Inr (Array2 2 4 [[1, 0, 1, 0], [0, 1, 1, 0]], Array2 2 2 [[- 1, 0], [1, 1]])
       else Inl (ValueError ''no Hermite form given'')),
     dict_order = (\<lambda>items. items)\<rparr>"

text \<open>The same collaborators with a dict that iterates in the reverse of the insertion order.\<close>

definition reversed_env :: collab where
  "reversed_env = example_env\<lparr>dict_order := rev\<rparr>"

definition growth_system :: ODESystem where
  "growth_system = \<lparr>priv_variables = [x_symbol, t_symbol],
     priv_derivatives = [Some (Sym x_symbol), Some (Num 1)], priv_indep_var = t_symbol\<rparr>"

text \<open>The system of \<open>dx/dt = 1 + x + t\<close>, which no scaling leaves invariant.\<close>

definition rigid_system :: ODESystem where
  "rigid_system = \<lparr>priv_variables = [x_symbol, t_symbol],
     priv_derivatives = [Some (Add (Add (Num 1) (Sym x_symbol)) (Sym t_symbol)), Some (Num 1)],
     priv_indep_var = t_symbol\<rparr>"

text \<open>The system of \<open>dx/dt = 0\<close>.\<close>

definition constant_system :: ODESystem where
  "constant_system = \<lparr>priv_variables = [x_symbol, t_symbol],
     priv_derivatives = [Some (Num 0), Some (Num 1)], priv_indep_var = t_symbol\<rparr>"

text \<open>A system that lists the variable \<open>x\<close> twice; the constructor accepts it.\<close>

definition doubled_system :: ODESystem where
  "doubled_system = \<lparr>priv_variables = [x_symbol, x_symbol, t_symbol],
     priv_derivatives = [Some (Sym x_symbol), Some (Sym x_symbol), Some (Num 1)],
     priv_indep_var = t_symbol\<rparr>"


section \<open>Lists and errors\<close>

lemma index_less: "y \<in> set xs \<Longrightarrow> index xs y < length xs"
  by (induction xs) auto

lemma index_nth: "y \<in> set xs \<Longrightarrow> xs ! index xs y = y"
  by (induction xs) auto

lemma index_nth_distinct: "distinct xs \<Longrightarrow> i < length xs \<Longrightarrow> index xs (xs ! i) = i"
proof (induction xs arbitrary: i)
  case Nil
  then show ?case by simp
next
  case (Cons x xs)
  then show ?case by (cases i) auto
qed

lemma index_map_nth:
  "distinct (map f xs) \<Longrightarrow> i < length xs \<Longrightarrow> index (map f xs) (f (xs ! i)) = i"
  using index_nth_distinct [of "map f xs" i] by simp

lemma sort_eq_iff_mset: "(sort xs = sort ys) = (mset xs = mset ys)"
  by (metis mset_sort properties_for_sort sorted_sort)

lemma filter_upt_single:
  "i < n \<Longrightarrow> (\<And>j. j < n \<Longrightarrow> P j = (j = i)) \<Longrightarrow> filter P [0..<n] = [i]"
proof (induction n)
  case 0
  then show ?case by simp
next
  case (Suc n)
  show ?case
  proof (cases "i = n")
    case True
    have "filter P [0..<n] = []"
      using Suc.prems(2) True by (auto simp: filter_empty_conv)
    with True Suc.prems(2) [of n] show ?thesis by simp
  next
    case False
    with Suc.prems have "i < n" by simp
    moreover have "\<And>j. j < n \<Longrightarrow> P j = (j = i)" using Suc.prems(2) by simp
    ultimately have "filter P [0..<n] = [i]" by (rule Suc.IH)
    moreover have "\<not> P n" using Suc.prems(2) [of n] False by simp
    ultimately show ?thesis by simp
  qed
qed

section \<open>Construction\<close>

lemma derivatives_nth:
  "i < length (priv_derivatives sys) \<Longrightarrow>
   (derivatives sys ! i = Num 1) = (priv_derivatives sys ! i = Some (Num 1))"
  by (auto simp: derivatives_def split: option.splits)

text \<open>
  Claim C6. With \<open>i\<close> the independent variable the constructor settles on (the argument, or
  the symbol \<open>t\<close> when none is given): unless \<open>i\<close> is among the variables, there are as many
  derivatives as variables, and the derivative stored at the first position of \<open>i\<close> is 1,
  the construction fails with an AssertionError; and a system that is constructed holds
  exactly the arguments, satisfies the three conditions, reads 1 in \<open>derivatives\<close> at the
  index of its independent variable, and has as many derivatives as variables.
\<close>

theorem ODESystem_init_checks:
  assumes "i = (case iv of None \<Rightarrow> t_symbol | Some v \<Rightarrow> v)"
  shows "(\<not> (i \<in> set vs \<and> length vs = length ds \<and> ds ! index vs i = Some (Num 1))
            \<longrightarrow> ODESystem_init vs ds iv = Inl AssertionError)
       \<and> (\<forall>sys. ODESystem_init vs ds iv = Inr sys \<longrightarrow>
            sys = \<lparr>priv_variables = vs, priv_derivatives = ds, priv_indep_var = i\<rparr>
            \<and> i \<in> set vs \<and> length vs = length ds \<and> ds ! index vs i = Some (Num 1)
            \<and> derivatives sys ! index (variables sys) (indep_var sys) = Num 1
            \<and> length (variables sys) = length (derivatives sys))"
proof -
  let ?sys = "\<lparr>priv_variables = vs, priv_derivatives = ds, priv_indep_var = i\<rparr>"
  have eq: "i \<in> set vs \<Longrightarrow> length vs = length ds \<Longrightarrow>
      (derivatives ?sys ! index vs i = Num 1) = (ds ! index vs i = Some (Num 1))"
    using derivatives_nth [of "index vs i" ?sys] index_less [of i vs] by simp
  show ?thesis
    using assms eq
    by (auto simp: ODESystem_init_def Let_def indep_var_def variables_def derivatives_def)
qed

theorem ODESystem_init_checks_witness:
  "ODESystem_init [x_symbol, t_symbol] [None, Some (Num 1)] (Some x_symbol) = Inl AssertionError
   \<and> ODESystem_init [x_symbol, t_symbol] [Some (Sym x_symbol), Some (Num 1)] None
       = Inr growth_system
   \<and> derivatives growth_system ! index (variables growth_system) (indep_var growth_system)
       = Num 1
   \<and> length (variables growth_system) = length (derivatives growth_system)"
proof -
  have built: "ODESystem_init [x_symbol, t_symbol] [Some (Sym x_symbol), Some (Num 1)] None
      = Inr growth_system"
    by (simp add: ODESystem_init_def growth_system_def indep_var_def variables_def
        derivatives_def t_symbol_def x_symbol_def)
  have "\<not> (x_symbol \<in> set [x_symbol, t_symbol]
      \<and> length [x_symbol, t_symbol] = length [None, Some (Num 1)]
      \<and> [None, Some (Num 1)] ! index [x_symbol, t_symbol] x_symbol = Some (Num 1))"
    by simp
  with ODESystem_init_checks [of x_symbol "Some x_symbol" "[x_symbol, t_symbol]"
      "[None, Some (Num 1)]"]
  have "ODESystem_init [x_symbol, t_symbol] [None, Some (Num 1)] (Some x_symbol)
      = Inl AssertionError"
    by simp
  moreover from ODESystem_init_checks [of t_symbol None "[x_symbol, t_symbol]"
      "[Some (Sym x_symbol), Some (Num 1)]"] built
  have "derivatives growth_system ! index (variables growth_system) (indep_var growth_system)
      = Num 1 \<and> length (variables growth_system) = length (derivatives growth_system)"
    by simp
  ultimately show ?thesis using built by simp
qed

section \<open>Reordering\<close>

text \<open>
  Claim C8. A request whose names are not, as a multiset, the names of the system's
  variables is rejected by the first statement of \<open>reorder_variables\<close>: the outcome is an
  AssertionError and the system afterwards is the system before.
\<close>

theorem reorder_variables_rejects:
  assumes "mset (map str new_vars) \<noteq> mset (map str (variables sys))"
  shows "reorder_variables new_vars sys = (Inl AssertionError, sys)"
  using assms by (simp add: reorder_variables_def sort_eq_iff_mset)

theorem reorder_variables_rejects_witness:
  "mset (map str [x_symbol]) \<noteq> mset (map str (variables growth_system))
   \<and> reorder_variables [x_symbol] growth_system = (Inl AssertionError, growth_system)"
proof -
  have h: "mset (map str [x_symbol]) \<noteq> mset (map str (variables growth_system))"
    by (simp add: variables_def growth_system_def)
  show ?thesis using h reorder_variables_rejects [OF h] by simp
qed

lemma positions_of_name:
  assumes "distinct (map str vs)" "str p \<in> set (map str vs)"
  shows "filter (\<lambda>i. str (vs ! i) = str p) [0..<length vs] = [index (map str vs) (str p)]"
proof (rule filter_upt_single)
  show "index (map str vs) (str p) < length vs"
    using index_less [OF assms(2)] by simp
next
  fix j assume j: "j < length vs"
  show "(str (vs ! j) = str p) = (j = index (map str vs) (str p))"
  proof
    assume "str (vs ! j) = str p"
    then have "index (map str vs) (str p) = index (map str vs) (map str vs ! j)"
      using j by simp
    also have "\<dots> = j" using index_nth_distinct [OF assms(1), of j] j by simp
    finally show "j = index (map str vs) (str p)" by simp
  next
    assume "j = index (map str vs) (str p)"
    then have "map str vs ! j = str p" using index_nth [OF assms(2)] by simp
    then show "str (vs ! j) = str p" using j by simp
  qed
qed

lemma column_shuffle_distinct:
  assumes "distinct (map str vs)" "set (map str ps) \<subseteq> set (map str vs)"
  shows "column_shuffle ps vs = map (\<lambda>p. index (map str vs) (str p)) ps"
  using assms(2)
proof (induction ps)
  case Nil
  then show ?case by (simp add: column_shuffle_def)
next
  case (Cons p ps)
  then have "str p \<in> set (map str vs)" by simp
  from positions_of_name [OF assms(1) this] Cons show ?case
    by (simp add: column_shuffle_def)
qed

lemma reorder_variables_distinct:
  assumes "distinct (map str (priv_variables sys))"
    and "length (priv_derivatives sys) = length (priv_variables sys)"
    and "mset (map str ps) = mset (map str (priv_variables sys))"
  shows "reorder_variables ps sys =
    (Inr (), sys\<lparr>priv_variables :=
                    map (\<lambda>p. priv_variables sys ! index (map str (priv_variables sys)) (str p)) ps,
                  priv_derivatives :=
                    map (\<lambda>p. priv_derivatives sys ! index (map str (priv_variables sys)) (str p)) ps\<rparr>)"
proof -
  let ?vs = "priv_variables sys"
  have sub: "set (map str ps) = set (map str ?vs)"
    using assms(3) by (rule mset_eq_setD)
  have cs: "column_shuffle ps ?vs = map (\<lambda>p. index (map str ?vs) (str p)) ps"
    using column_shuffle_distinct [OF assms(1)] sub by simp
  have "index (map str ?vs) (str p) < length (priv_derivatives sys)" if "p \<in> set ps" for p
  proof -
    have "str p \<in> set (map str ?vs)" using that sub by auto
    then show ?thesis using index_less [of "str p" "map str ?vs"] assms(2) by simp
  qed
  then have inr: "list_all (\<lambda>i. i < length (priv_derivatives sys)) (column_shuffle ps ?vs)"
    by (simp add: cs list_all_iff)
  show ?thesis
    using assms(3) inr
    by (simp add: reorder_variables_def sort_eq_iff_mset variables_def Let_def cs comp_def)
qed

text \<open>
  Claim C7, as amended. For a system whose variables have pairwise distinct names and as
  many derivatives as variables (the constructor's invariant): reordering to the order the
  system has changes nothing; and for every permutation \<open>ps\<close> of the variables,
  reordering to \<open>ps\<close> succeeds, leaves the variables in the order \<open>ps\<close>, and reordering
  back to the first order restores the system.
\<close>

theorem reorder_variables_roundtrip:
  assumes "distinct (map str (variables sys))"
    and "length (priv_derivatives sys) = length (variables sys)"
  shows "reorder_variables (variables sys) sys = (Inr (), sys)
       \<and> (\<forall>ps r sys1. mset ps = mset (variables sys) \<longrightarrow>
            reorder_variables ps sys = (r, sys1) \<longrightarrow>
              r = Inr () \<and> variables sys1 = ps
              \<and> reorder_variables (variables sys) sys1 = (Inr (), sys))"
proof -
  let ?vs = "priv_variables sys" and ?ds = "priv_derivatives sys"
  let ?N = "map str ?vs"
  have d: "distinct ?N" and l: "length ?ds = length ?vs"
    using assms by (simp_all add: variables_def)
  have inv: "index ?N (str (?vs ! i)) = i" if "i < length ?vs" for i
    using d that by (rule index_map_nth)
  have idv: "map (\<lambda>p. ?vs ! index ?N (str p)) ?vs = ?vs"
    by (rule nth_equalityI) (simp_all add: inv)
  have idd: "map (\<lambda>p. ?ds ! index ?N (str p)) ?vs = ?ds"
    by (rule nth_equalityI) (simp_all add: inv l)
  have same: "reorder_variables (variables sys) sys = (Inr (), sys)"
    using reorder_variables_distinct [OF d l, of ?vs] by (simp add: variables_def idv idd)
  have round: "r = Inr () \<and> variables sys1 = ps
      \<and> reorder_variables (variables sys) sys1 = (Inr (), sys)"
    if ps: "mset ps = mset (variables sys)" and res: "reorder_variables ps sys = (r, sys1)"
    for ps r sys1
  proof -
    have psn: "mset (map str ps) = mset ?N"
      using ps by (metis mset_map variables_def)
    let ?sys1 = "sys\<lparr>priv_variables := map (\<lambda>p. ?vs ! index ?N (str p)) ps,
                      priv_derivatives := map (\<lambda>p. ?ds ! index ?N (str p)) ps\<rparr>"
    have first: "reorder_variables ps sys = (Inr (), ?sys1)"
      by (rule reorder_variables_distinct [OF d l psn])
    have mem: "p \<in> set ?vs" if "p \<in> set ps" for p
      using that ps by (metis mset_eq_setD variables_def)
    have sel: "?vs ! index ?N (str p) = p" if pin: "p \<in> set ps" for p
    proof -
      obtain i where i: "i < length ?vs" "?vs ! i = p"
        using mem [OF pin] by (auto simp: in_set_conv_nth)
      then show ?thesis using inv [of i] by simp
    qed
    have vs1: "priv_variables ?sys1 = ps"
      by (simp add: map_idI sel)
    have d1: "distinct (map str (priv_variables ?sys1))"
      using vs1 psn d by (metis mset_eq_imp_distinct_iff)
    have l1: "length (priv_derivatives ?sys1) = length (priv_variables ?sys1)"
      by simp
    have n1: "mset (map str ?vs) = mset (map str (priv_variables ?sys1))"
      using psn vs1 by simp
    have pos: "index (map str ps) (str v) < length ps \<and> ps ! index (map str ps) (str v) = v"
      if "v \<in> set ?vs" for v
    proof -
      have "v \<in> set ps" using that ps by (metis mset_eq_setD variables_def)
      then obtain k where k: "k < length ps" "ps ! k = v" by (auto simp: in_set_conv_nth)
      have "distinct (map str ps)" using psn d by (metis mset_eq_imp_distinct_iff)
      then have "index (map str ps) (str (ps ! k)) = k"
        using k(1) by (rule index_map_nth)
      then show ?thesis using k by simp
    qed
    have v2: "map (\<lambda>p. priv_variables ?sys1 ! index (map str (priv_variables ?sys1)) (str p)) ?vs
        = ?vs"
      unfolding vs1 by (rule map_idI) (simp add: pos)
    have d2: "map (\<lambda>p. priv_derivatives ?sys1 ! index (map str (priv_variables ?sys1)) (str p)) ?vs
        = ?ds"
      unfolding vs1
    proof (rule nth_equalityI)
      show "length (map (\<lambda>p. priv_derivatives ?sys1 ! index (map str ps) (str p)) ?vs)
          = length ?ds"
        using l by simp
    next
      fix i
      assume "i < length (map (\<lambda>p. priv_derivatives ?sys1 ! index (map str ps) (str p)) ?vs)"
      then have i: "i < length ?vs" by simp
      then have v: "?vs ! i \<in> set ?vs" by simp
      from pos [OF v] inv [OF i] i show
        "map (\<lambda>p. priv_derivatives ?sys1 ! index (map str ps) (str p)) ?vs ! i = ?ds ! i"
        by simp
    qed
    have second: "reorder_variables ?vs ?sys1 = (Inr (), sys)"
      using reorder_variables_distinct [OF d1 l1 n1] v2 d2 by simp
    show ?thesis
      using first vs1 second res by (auto simp: variables_def)
  qed
  show ?thesis using same round by blast
qed

theorem reorder_variables_roundtrip_witness:
  "distinct (map str (variables growth_system))
   \<and> length (priv_derivatives growth_system) = length (variables growth_system)
   \<and> mset [t_symbol, x_symbol] = mset (variables growth_system)
   \<and> reorder_variables (variables growth_system) growth_system = (Inr (), growth_system)
   \<and> reorder_variables [t_symbol, x_symbol] growth_system
       = (Inr (), growth_system\<lparr>priv_variables := [t_symbol, x_symbol],
            priv_derivatives := [Some (Num 1), Some (Sym x_symbol)]\<rparr>)
   \<and> reorder_variables (variables growth_system)
        (growth_system\<lparr>priv_variables := [t_symbol, x_symbol],
            priv_derivatives := [Some (Num 1), Some (Sym x_symbol)]\<rparr>)
       = (Inr (), growth_system)"
proof -
  have d: "distinct (map str (variables growth_system))"
    by (simp add: variables_def growth_system_def str_def x_symbol_def t_symbol_def)
  have l: "length (priv_derivatives growth_system) = length (variables growth_system)"
    by (simp add: variables_def growth_system_def)
  have p: "mset [t_symbol, x_symbol] = mset (variables growth_system)"
    by (simp add: variables_def growth_system_def)
  have names: "sort (map str [t_symbol, x_symbol]) = sort (map str (variables growth_system))"
    using p by (metis mset_map sort_eq_iff_mset)
  have cs: "column_shuffle [t_symbol, x_symbol] (variables growth_system) = [1, 0]"
    by (simp add: variables_def column_shuffle_def growth_system_def str_def x_symbol_def
        t_symbol_def upt_rec)
  have run: "reorder_variables [t_symbol, x_symbol] growth_system
      = (Inr (), growth_system\<lparr>priv_variables := [t_symbol, x_symbol],
            priv_derivatives := [Some (Num 1), Some (Sym x_symbol)]\<rparr>)"
    unfolding reorder_variables_def names cs
    by (simp add: growth_system_def)
  note r = reorder_variables_roundtrip [OF d l]
  have same: "reorder_variables (variables growth_system) growth_system = (Inr (), growth_system)"
    using r by (rule conjunct1)
  have secnd: "reorder_variables (variables growth_system)
        (growth_system\<lparr>priv_variables := [t_symbol, x_symbol],
            priv_derivatives := [Some (Num 1), Some (Sym x_symbol)]\<rparr>)
       = (Inr (), growth_system)"
    using r [THEN conjunct2, rule_format, OF p run, THEN conjunct2, THEN conjunct2] .
  show ?thesis
    by (intro conjI d l p same run secnd)
qed
text \<open>
  The claim as stated fails for a system that names a variable twice: the constructor
  accepts \<open>(x, x, t)\<close>, and reordering it to the order it has lists every position of the
  name \<open>x\<close> for each of the two requests, so the system grows to five variables.
\<close>

theorem reorder_variables_identity_counterexample:
  "ODESystem_init [x_symbol, x_symbol, t_symbol]
       [Some (Sym x_symbol), Some (Sym x_symbol), Some (Num 1)] None = Inr doubled_system
   \<and> reorder_variables (variables doubled_system) doubled_system
       = (Inr (), doubled_system\<lparr>
            priv_variables := [x_symbol, x_symbol, x_symbol, x_symbol, t_symbol],
            priv_derivatives := [Some (Sym x_symbol), Some (Sym x_symbol), Some (Sym x_symbol),
              Some (Sym x_symbol), Some (Num 1)]\<rparr>)
   \<and> reorder_variables (variables doubled_system) doubled_system \<noteq> (Inr (), doubled_system)"
proof -
  have run: "reorder_variables (variables doubled_system) doubled_system
      = (Inr (), doubled_system\<lparr>
            priv_variables := [x_symbol, x_symbol, x_symbol, x_symbol, t_symbol],
            priv_derivatives := [Some (Sym x_symbol), Some (Sym x_symbol), Some (Sym x_symbol),
              Some (Sym x_symbol), Some (Num 1)]\<rparr>)"
    by (simp add: reorder_variables_def variables_def column_shuffle_def doubled_system_def
        str_def x_symbol_def t_symbol_def upt_rec)
  have built: "ODESystem_init [x_symbol, x_symbol, t_symbol]
       [Some (Sym x_symbol), Some (Sym x_symbol), Some (Num 1)] None = Inr doubled_system"
    by (simp add: ODESystem_init_def doubled_system_def indep_var_def variables_def
        derivatives_def t_symbol_def x_symbol_def)
  have "doubled_system\<lparr>
            priv_variables := [x_symbol, x_symbol, x_symbol, x_symbol, t_symbol],
            priv_derivatives := [Some (Sym x_symbol), Some (Sym x_symbol), Some (Sym x_symbol),
              Some (Sym x_symbol), Some (Num 1)]\<rparr> \<noteq> doubled_system"
    by (simp add: doubled_system_def)
  with run built show ?thesis by simp
qed


section \<open>Parsing\<close>

lemma alnum_not_whitespace: "alnum c \<Longrightarrow> \<not> whitespace c"
  by (auto simp: alnum_def whitespace_def)

lemma slash_not_alnum: "\<not> alnum (CHR ''/'')"
  by (simp add: alnum_def)

lemma d_not_whitespace: "\<not> whitespace (CHR ''d'')"
  by (simp add: whitespace_def)

lemma dropWhile_all: "list_all P xs \<Longrightarrow> dropWhile P (xs @ ys) = dropWhile P ys"
  by (induction xs) auto

lemma takeWhile_all: "list_all P xs \<Longrightarrow> takeWhile P (xs @ ys) = xs @ takeWhile P ys"
  by (induction xs) auto

lemma rstrip_append:
  assumes "xs \<noteq> []" "\<not> P (last xs)"
  shows "rev (dropWhile P (rev (xs @ ys))) = xs @ rev (dropWhile P (rev ys))"
proof -
  have "dropWhile P (rev xs) = rev xs"
    using assms by (cases "rev xs") (auto simp: last_rev [symmetric] simp del: last_rev)
  then show ?thesis
    by (simp add: dropWhile_append)
qed

lemma rstrip_prefix: "\<exists>zs. ys = rev (dropWhile P (rev ys)) @ zs"
proof -
  have "rev ys = takeWhile P (rev ys) @ dropWhile P (rev ys)" by simp
  then have "rev (rev ys) = rev (takeWhile P (rev ys) @ dropWhile P (rev ys))" by simp
  then have "ys = rev (dropWhile P (rev ys)) @ rev (takeWhile P (rev ys))"
    by (simp only: rev_rev_ident rev_append)
  then show ?thesis by blast
qed

lemma rstrip_head:
  assumes "case ys of [] \<Rightarrow> True | c # cs \<Rightarrow> \<not> Q c"
  shows "case rev (dropWhile P (rev ys)) of [] \<Rightarrow> True | c # cs \<Rightarrow> \<not> Q c"
proof -
  obtain zs where zs: "ys = rev (dropWhile P (rev ys)) @ zs"
    using rstrip_prefix by blast
  show ?thesis
  proof (cases "rev (dropWhile P (rev ys))")
    case Nil
    show ?thesis unfolding Nil by simp
  next
    case (Cons c cs)
    with zs have "ys = c # cs @ zs" by simp
    with assms have nq: "\<not> Q c" by simp
    show ?thesis unfolding Cons using nq by simp
  qed
qed

lemma takeWhile_stop:
  assumes "list_all P xs" "case ys of [] \<Rightarrow> True | c # cs \<Rightarrow> \<not> P c"
  shows "takeWhile P (xs @ ys) = xs"
  using assms by (cases ys) (simp_all add: takeWhile_all list_all_iff)

lemma match_de_line:
  assumes "list_all alnum v" "list_all alnum i"
    and "case rest of [] \<Rightarrow> True | c # cs \<Rightarrow> \<not> alnum c"
  shows "\<exists>g3. match_de (CHR ''d'' # v @ CHR ''/'' # CHR ''d'' # i @ rest) = Some (v, i, g3)"
proof -
  have 1: "dropWhile alnum (v @ CHR ''/'' # CHR ''d'' # i @ rest) = CHR ''/'' # CHR ''d'' # i @ rest"
    using assms(1) by (simp add: dropWhile_all slash_not_alnum)
  have 2: "takeWhile alnum (v @ CHR ''/'' # CHR ''d'' # i @ rest) = v"
    using assms(1) by (simp add: takeWhile_all slash_not_alnum)
  have 3: "takeWhile alnum (i @ rest) = i"
    using assms(2,3) by (rule takeWhile_stop)
  show ?thesis
    by (simp add: match_de_def 1 2 3)
qed

lemma strip_line:
  assumes "list_all whitespace lead" "list_all alnum i"
  shows "strip (lead @ CHR ''d'' # v @ CHR ''/'' # CHR ''d'' # i @ rest)
     = CHR ''d'' # v @ CHR ''/'' # CHR ''d'' # i @ rev (dropWhile whitespace (rev rest))"
proof -
  let ?xs = "CHR ''d'' # v @ CHR ''/'' # CHR ''d'' # i"
  have l: "\<not> whitespace (last ?xs)"
  proof (cases "i = []")
    case True
    then show ?thesis by (simp add: d_not_whitespace)
  next
    case False
    then have "last ?xs = last i" by simp
    moreover have "alnum (last i)"
      using assms(2) False by (simp add: list_all_iff)
    ultimately show ?thesis by (simp add: alnum_not_whitespace)
  qed
  have "dropWhile whitespace (lead @ ?xs @ rest) = ?xs @ rest"
    using assms(1) by (simp add: dropWhile_all d_not_whitespace)
  moreover have "rev (dropWhile whitespace (rev (?xs @ rest)))
      = ?xs @ rev (dropWhile whitespace (rev rest))"
    using l by (intro rstrip_append) simp_all
  ultimately show ?thesis
    by (simp add: strip_def)
qed

text \<open>
  Claim C9. A line \<open>d<VAR>/d<INDEP>...\<close>, possibly after leading whitespace, with \<open>VAR\<close> and
  \<open>INDEP\<close> alphanumeric and the rest not continuing the identifier \<open>INDEP\<close>: when \<open>INDEP\<close>
  is not the expected name, \<open>parse_de\<close> raises the ValueError of the wrong independent
  variable. Nothing is returned, and the error comes before \<open>sympy.var\<close> and
  \<open>sympy.sympify\<close> are reached: whatever these two do (\<open>env\<close> is arbitrary), the
  outcome is the same.
\<close>

theorem parse_de_wrong_indep_var:
  assumes "list_all whitespace lead" and "list_all alnum v" and "list_all alnum i"
    and "case rest of [] \<Rightarrow> True | c # cs \<Rightarrow> \<not> alnum c"
    and "i \<noteq> indep"
  shows "parse_de env (lead @ ''d'' @ v @ ''/d'' @ i @ rest) indep
     = Inl (ValueError (''We only work in ordinary DEs in '' @ indep))"
proof -
  let ?rest = "rev (dropWhile whitespace (rev rest))"
  have s: "strip (lead @ ''d'' @ v @ ''/d'' @ i @ rest)
      = CHR ''d'' # v @ CHR ''/'' # CHR ''d'' # i @ ?rest"
    using strip_line [OF assms(1,3)] by simp
  have "case ?rest of [] \<Rightarrow> True | c # cs \<Rightarrow> \<not> alnum c"
    using assms(4) by (rule rstrip_head)
  from match_de_line [OF assms(2,3) this] obtain g3
    where m: "match_de (CHR ''d'' # v @ CHR ''/'' # CHR ''d'' # i @ ?rest) = Some (v, i, g3)"
    by blast
  show ?thesis
    unfolding parse_de_def s m using assms(5) by simp
qed

theorem parse_de_wrong_indep_var_witness:
  "list_all whitespace '' '' \<and> list_all alnum ''n'' \<and> list_all alnum ''s''
   \<and> ''s'' \<noteq> ''t''
   \<and> parse_de example_env '' dn/ds = n*r'' ''t''
       = Inl (ValueError ''We only work in ordinary DEs in t'')"
proof -
  have a: "list_all whitespace '' ''" by (simp add: whitespace_def)
  have b: "list_all alnum ''n''" by (simp add: alnum_def)
  have c: "list_all alnum ''s''" by (simp add: alnum_def)
  have d: "case '' = n*r'' of [] \<Rightarrow> True | c # cs \<Rightarrow> \<not> alnum c" by (simp add: alnum_def)
  have e: "''s'' \<noteq> ''t''" by simp
  from parse_de_wrong_indep_var [OF a b c d e, of example_env] a b c e
  show ?thesis by simp
qed

end
